theory Spec2Isabelle
  imports Complex_Main
begin

section \<open>Python values, errors and the builtins the program relies on\<close>

text \<open>
  The program is Python. Exceptions are values of \<open>error + 'a\<close>. A Python float is an
  IEEE 754 double: where week positions are resolved, the model rounds every float
  operation as the machine does. In the load and score formulas further below the
  floats are idealised as reals.
\<close>

datatype error = ValueError | OverflowError | IndexError

text \<open>A JSON-like dynamically typed value, as found in a parsed template.\<close>

datatype pyval =
    PNone
  | PBool bool
  | PInt int
  | PFloat real
  | PStr string
  | PList "pyval list"

subsection \<open>Doubles\<close>

text \<open>
  A float is a finite double (given by its value), an infinity or NaN. The sign of a zero
  is not kept: no operation below depends on it.
\<close>

datatype pyfloat = Fin real | PosInf | NegInf | NaN

text \<open>Rounding to the nearest integer, ties to the even one (Python's \<open>round\<close>).\<close>

definition py_round :: "real \<Rightarrow> int" where
  "py_round x =
     (let f = \<lfloor>x\<rfloor>; d = x - of_int f
      in if d < 1 / 2 then f else if 1 / 2 < d then f + 1
         else if even f then f else f + 1)"

definition pow2 :: "int \<Rightarrow> real" where
  "pow2 e = (if 0 \<le> e then 2 ^ nat e else 1 / 2 ^ nat (- e))"

text \<open>
  The binary exponent of a positive real \<open>a\<close>, that is the \<open>e\<close> with
  \<open>2^e \<le> a < 2^(e + 1)\<close>, found by halving or doubling.
\<close>

function exponent_up :: "real \<Rightarrow> int" where
  "exponent_up a = (if 2 \<le> a then exponent_up (a / 2) + 1 else 0)"
  by pat_completeness auto
termination
proof (relation "measure (\<lambda>a. nat \<lfloor>a\<rfloor>)")
  show "wf (measure (\<lambda>a::real. nat \<lfloor>a\<rfloor>))" by simp
next
  fix a :: real
  assume a: "2 \<le> a"
  then have n: "2 \<le> \<lfloor>a\<rfloor>" by (simp add: le_floor_iff)
  then have "2 \<le> real_of_int \<lfloor>a\<rfloor>" by simp
  moreover have "a < of_int \<lfloor>a\<rfloor> + 1" by linarith
  ultimately have "a / 2 < of_int \<lfloor>a\<rfloor>" by linarith
  then have "\<lfloor>a / 2\<rfloor> < \<lfloor>a\<rfloor>" by (simp only: floor_less_iff)
  with n have "nat \<lfloor>a / 2\<rfloor> < nat \<lfloor>a\<rfloor>" by linarith
  then show "(a / 2, a) \<in> measure (\<lambda>a. nat \<lfloor>a\<rfloor>)" by (simp only: in_measure)
qed

function exponent_down :: "real \<Rightarrow> int" where
  "exponent_down a = (if 0 < a \<and> a < 1 then exponent_down (a * 2) - 1 else 0)"
  by pat_completeness auto
termination
proof (relation "measure (\<lambda>a. nat \<lfloor>1 / a\<rfloor>)")
  show "wf (measure (\<lambda>a::real. nat \<lfloor>1 / a\<rfloor>))" by simp
next
  fix a :: real
  assume a: "0 < a \<and> a < 1"
  define x where "x = 1 / a"
  from a have "1 < x" by (simp add: x_def)
  then have n: "1 \<le> \<lfloor>x\<rfloor>" by (simp add: le_floor_iff)
  then have "1 \<le> real_of_int \<lfloor>x\<rfloor>" by simp
  moreover have "x < of_int \<lfloor>x\<rfloor> + 1" by linarith
  ultimately have "x / 2 < of_int \<lfloor>x\<rfloor>" by linarith
  then have "\<lfloor>x / 2\<rfloor> < \<lfloor>x\<rfloor>" by (simp only: floor_less_iff)
  with n have lt: "nat \<lfloor>x / 2\<rfloor> < nat \<lfloor>x\<rfloor>" by linarith
  have e: "1 / (a * 2) = x / 2" unfolding x_def by simp
  have "nat \<lfloor>1 / (a * 2)\<rfloor> < nat \<lfloor>1 / a\<rfloor>"
    using lt unfolding e x_def .
  then show "(a * 2, a) \<in> measure (\<lambda>a. nat \<lfloor>1 / a\<rfloor>)"
    by (simp only: in_measure)
qed

declare exponent_up.simps [simp del] exponent_down.simps [simp del]

definition bin_exponent :: "real \<Rightarrow> int" where
  "bin_exponent a = (if 1 \<le> a then exponent_up a else exponent_down a)"

text \<open>
  The double nearest to a real, ties to the even significand: 53 significant bits,
  exponents from \<open>- 1022\<close> (below that the spacing stays \<open>2^(- 1074)\<close>), and an infinity
  from \<open>2^1024 - 2^970\<close> on.
\<close>

definition double_of_real :: "real \<Rightarrow> pyfloat" where
  "double_of_real x =
     (let a = \<bar>x\<bar>
      in if 2 ^ 1024 \<le> a then (if 0 < x then PosInf else NegInf)
         else
           (let e = (if a < pow2 (- 1022) then - 1022 else bin_exponent a);
                ulp = pow2 (e - 52);
                r = of_int (py_round (a / ulp)) * ulp
            in if 2 ^ 1024 \<le> r then (if 0 < x then PosInf else NegInf)
               else Fin (if 0 < x then r else - r)))"

subsection \<open>The builtin \<open>float(str)\<close>\<close>

text \<open>
  Strings are modelled up to code point 255. \<open>float\<close> first turns every non-ASCII
  space (here U+0085 and U+00A0) into a blank and every other character from 127 on,
  none of which is a decimal digit, into a question mark, where it stops. It then strips
  the ASCII whitespace (blank, tab, line feed, vertical tab, form feed, carriage return)
  from both ends, reads an optional sign and then either \<open>inf\<close>, \<open>infinity\<close>, \<open>nan\<close> (in
  any letter case) or a decimal number \<open>[digitpart] . digitpart | digitpart [.]\<close> with an
  optional exponent, where a digitpart is \<open>digit ([_] digit)*\<close>. Anything else raises
  ValueError. The number is rounded to the nearest double; one too large is an infinity.
\<close>

fun transform_spaces :: "string \<Rightarrow> string" where
  "transform_spaces [] = []"
| "transform_spaces (c # cs) =
     (if of_char c < (127 :: nat) then c # transform_spaces cs
      else if c = CHR 0x85 \<or> c = CHR 0xA0 then CHR '' '' # transform_spaces cs
      else ''?'')"

definition is_space :: "char \<Rightarrow> bool" where
  "is_space c = (c \<in> set [CHR '' '', CHR 0x09, CHR 0x0A, CHR 0x0B, CHR 0x0C, CHR 0x0D])"

definition strip :: "string \<Rightarrow> string" where
  "strip s = rev (dropWhile is_space (rev (dropWhile is_space s)))"

definition digit_table :: "(char \<times> nat) list" where
  "digit_table = zip ''0123456789'' [0, 1, 2, 3, 4, 5, 6, 7, 8, 9]"

definition digit_of :: "char \<Rightarrow> nat option" where
  "digit_of c = map_of digit_table c"

text \<open>The continuation \<open>([_] digit)*\<close> of a digitpart: the digits read and the rest.\<close>

fun digits_rest :: "nat list \<Rightarrow> string \<Rightarrow> nat list \<times> string" where
  "digits_rest acc [] = (acc, [])"
| "digits_rest acc [c] =
     (case digit_of c of Some d \<Rightarrow> (acc @ [d], []) | None \<Rightarrow> (acc, [c]))"
| "digits_rest acc (c # c' # cs) =
     (case digit_of c of
        Some d \<Rightarrow> digits_rest (acc @ [d]) (c' # cs)
      | None \<Rightarrow>
          (if c = CHR ''_'' then
             (case digit_of c' of
                Some d \<Rightarrow> digits_rest (acc @ [d]) cs
              | None \<Rightarrow> (acc, c # c' # cs))
           else (acc, c # c' # cs)))"

fun digitpart :: "string \<Rightarrow> (nat list \<times> string) option" where
  "digitpart [] = None"
| "digitpart (c # cs) =
     (case digit_of c of Some d \<Rightarrow> Some (digits_rest [d] cs) | None \<Rightarrow> None)"

definition nat_of_digits :: "nat list \<Rightarrow> nat" where
  "nat_of_digits ds = foldl (\<lambda>a d. 10 * a + d) 0 ds"

text \<open>\<open>number\<close>: the value of the mantissa and the rest of the string.\<close>

definition parse_number :: "string \<Rightarrow> (real \<times> string) option" where
  "parse_number s =
     (case digitpart s of
        Some (ip, r) \<Rightarrow>
          (case r of
             [] \<Rightarrow> Some (real (nat_of_digits ip), r)
           | c # r' \<Rightarrow>
               if c = CHR ''.'' then
                 (case digitpart r' of
                    Some (fp, r'') \<Rightarrow>
                      Some (real (nat_of_digits ip)
                            + real (nat_of_digits fp) / 10 ^ length fp, r'')
                  | None \<Rightarrow> Some (real (nat_of_digits ip), r'))
               else Some (real (nat_of_digits ip), r))
      | None \<Rightarrow>
          (case s of
             [] \<Rightarrow> None
           | c # r' \<Rightarrow>
               if c = CHR ''.'' then
                 (case digitpart r' of
                    Some (fp, r'') \<Rightarrow> Some (real (nat_of_digits fp) / 10 ^ length fp, r'')
                  | None \<Rightarrow> None)
               else None))"

text \<open>The optional sign: whether it is a minus, and the rest.\<close>

fun parse_sign :: "string \<Rightarrow> bool \<times> string" where
  "parse_sign [] = (False, [])"
| "parse_sign (c # cs) =
     (if c = CHR ''-'' then (True, cs) else if c = CHR ''+'' then (False, cs)
      else (False, c # cs))"

text \<open>\<open>exponent\<close>, which must reach the end of the string; no exponent is exponent 0.\<close>

definition parse_exponent :: "string \<Rightarrow> int option" where
  "parse_exponent s =
     (case s of
        [] \<Rightarrow> Some 0
      | c # r \<Rightarrow>
          if c = CHR ''e'' \<or> c = CHR ''E'' then
            (case parse_sign r of
               (neg, r') \<Rightarrow>
                 (case digitpart r' of
                    Some (ds, []) \<Rightarrow>
                      Some (if neg then - int (nat_of_digits ds) else int (nat_of_digits ds))
                  | Some (ds, x # xs) \<Rightarrow> None
                  | None \<Rightarrow> None))
          else None)"

text \<open>Case-insensitive match against a word given as (lower, upper) letter pairs.\<close>

fun ci_match :: "string \<Rightarrow> (char \<times> char) list \<Rightarrow> bool" where
  "ci_match [] [] = True"
| "ci_match (c # cs) ((l, u) # ps) = ((c = l \<or> c = u) \<and> ci_match cs ps)"
| "ci_match _ _ = False"

definition word_inf :: "(char \<times> char) list" where
  "word_inf = [(CHR ''i'', CHR ''I''), (CHR ''n'', CHR ''N''), (CHR ''f'', CHR ''F'')]"

definition word_infinity :: "(char \<times> char) list" where
  "word_infinity = word_inf @
     [(CHR ''i'', CHR ''I''), (CHR ''n'', CHR ''N''), (CHR ''i'', CHR ''I''),
      (CHR ''t'', CHR ''T''), (CHR ''y'', CHR ''Y'')]"

definition word_nan :: "(char \<times> char) list" where
  "word_nan = [(CHR ''n'', CHR ''N''), (CHR ''a'', CHR ''A''), (CHR ''n'', CHR ''N'')]"

definition pow10 :: "int \<Rightarrow> real" where
  "pow10 e = (if 0 \<le> e then 10 ^ nat e else 1 / 10 ^ nat (- e))"

definition py_float :: "string \<Rightarrow> error + pyfloat" where
  "py_float s =
     (case parse_sign (strip (transform_spaces s)) of
        (neg, body) \<Rightarrow>
          if ci_match body word_inf \<or> ci_match body word_infinity
          then Inr (if neg then NegInf else PosInf)
          else if ci_match body word_nan then Inr NaN
          else
            (case parse_number body of
               None \<Rightarrow> Inl ValueError
             | Some (m, r) \<Rightarrow>
                 (case parse_exponent r of
                    None \<Rightarrow> Inl ValueError
                  | Some e \<Rightarrow> Inr (double_of_real ((if neg then - m else m) * pow10 e)))))"

subsection \<open>Float arithmetic and \<open>round\<close>\<close>

text \<open>
  An int operand of a float operation is first made a float, which raises OverflowError
  when the int is too large.
\<close>

definition float_of_int :: "int \<Rightarrow> error + real" where
  "float_of_int n =
     (case double_of_real (of_int n) of Fin x \<Rightarrow> Inr x | _ \<Rightarrow> Inl OverflowError)"

text \<open>\<open>x / 100\<close>.\<close>

fun float_div_100 :: "pyfloat \<Rightarrow> pyfloat" where
  "float_div_100 (Fin x) = double_of_real (x / 100)"
| "float_div_100 PosInf = PosInf"
| "float_div_100 NegInf = NegInf"
| "float_div_100 NaN = NaN"

text \<open>\<open>x * c\<close> for a finite double \<open>c\<close>.\<close>

fun float_mul :: "pyfloat \<Rightarrow> real \<Rightarrow> pyfloat" where
  "float_mul (Fin x) c = double_of_real (x * c)"
| "float_mul PosInf c = (if 0 < c then PosInf else if c < 0 then NegInf else NaN)"
| "float_mul NegInf c = (if 0 < c then NegInf else if c < 0 then PosInf else NaN)"
| "float_mul NaN c = NaN"

text \<open>\<open>round\<close> of a float to an int, which raises on an infinity and on NaN.\<close>

fun round_float :: "pyfloat \<Rightarrow> error + int" where
  "round_float (Fin x) = Inr (py_round x)"
| "round_float PosInf = Inl OverflowError"
| "round_float NegInf = Inl OverflowError"
| "round_float NaN = Inl ValueError"

section \<open>Template parsing\<close>

text \<open>
  \<open>resolve_week_position\<close>. \<open>isinstance(position, int)\<close> also holds of a bool, which is
  returned as it is; as a sort key and in comparisons \<open>True\<close> is 1 and \<open>False\<close> is 0.
  The percentage branch computes \<open>float(position[:-1]) / 100\<close> and
  \<open>round(percentage * total_weeks) + 1\<close> in doubles.
\<close>

definition percent_week :: "pyfloat \<Rightarrow> int \<Rightarrow> error + int" where
  "percent_week x total_weeks =
     (let percentage = float_div_100 x
      in if percentage = Fin 0 then Inr 1
         else
           (case float_of_int total_weeks of
              Inl e \<Rightarrow> Inl e
            | Inr tw \<Rightarrow>
                (case round_float (float_mul percentage tw) of
                   Inl e \<Rightarrow> Inl e
                 | Inr r \<Rightarrow> (let week = r + 1 in Inr (max 1 (min total_weeks week))))))"

text \<open>\<open>s.endswith(suffix)\<close>; for a non-empty \<open>s\<close>, \<open>s[:-1]\<close> is \<open>butlast s\<close>.\<close>

definition endswith :: "string \<Rightarrow> string \<Rightarrow> bool" where
  "endswith s suffix =
     (length suffix \<le> length s \<and> drop (length s - length suffix) s = suffix)"

fun resolve_week_position :: "pyval \<Rightarrow> int \<Rightarrow> error + int" where
  "resolve_week_position (PInt n) total_weeks = Inr n"
| "resolve_week_position (PBool b) total_weeks = Inr (if b then 1 else 0)"
| "resolve_week_position (PStr s) total_weeks =
     (if s = ''first'' then Inr 1
      else if s = ''last'' then Inr total_weeks
      else if endswith s ''%'' then
        (case py_float (butlast s) of
           Inl e \<Rightarrow> Inl e
         | Inr x \<Rightarrow> percent_week x total_weeks)
      else Inr 1)"
| "resolve_week_position _ total_weeks = Inr 1"

text \<open>
  A keyframe is a dict of a parsed template; \<open>d.get(k, dflt)\<close> is the stored value
  when the key is present (even when that value is \<open>None\<close>) and \<open>dflt\<close> otherwise.
\<close>

type_synonym keyframe = "string \<rightharpoonup> pyval"

definition dict_get :: "keyframe \<Rightarrow> string \<Rightarrow> pyval \<Rightarrow> pyval" where
  "dict_get d k dflt = (case d k of Some v \<Rightarrow> v | None \<Rightarrow> dflt)"

record WeekDefinition =
  position :: int
  phase_name :: pyval
  focus :: pyval
  power_multiplier :: pyval
  target_rpe :: pyval
  duration_minutes :: pyval
  work_rest_ratio :: pyval

text \<open>The decimal text of an integer, for the f-string \<open>f'Week {i}'\<close>.\<close>

definition digit_char :: "nat \<Rightarrow> char" where
  "digit_char d = ''0123456789'' ! (d mod 10)"

function str_nat :: "nat \<Rightarrow> string" where
  "str_nat n = (if n < 10 then [digit_char n] else str_nat (n div 10) @ [digit_char (n mod 10)])"
  by pat_completeness auto
termination
  by (relation "measure id") auto

declare str_nat.simps [simp del]

definition str_int :: "int \<Rightarrow> string" where
  "str_int i = (if i < 0 then CHR ''-'' # str_nat (nat (- i)) else str_nat (nat i))"

definition week_label :: "int \<Rightarrow> pyval" where
  "week_label i = PStr (''Week '' @ str_int i)"

text \<open>The first loop of \<open>interpolate_weeks\<close>: resolve each keyframe's position, in order.\<close>

definition keyframe_index :: "int \<Rightarrow> keyframe \<Rightarrow> error + int" where
  "keyframe_index total_weeks w =
     resolve_week_position (dict_get w ''position'' (PInt 1)) total_weeks"

fun resolve_all :: "keyframe list \<Rightarrow> int \<Rightarrow> error + (int \<times> keyframe) list" where
  "resolve_all [] total_weeks = Inr []"
| "resolve_all (w # ws) total_weeks =
     (case keyframe_index total_weeks w of
        Inl e \<Rightarrow> Inl e
      | Inr pos \<Rightarrow>
          (case resolve_all ws total_weeks of
             Inl e \<Rightarrow> Inl e
           | Inr r \<Rightarrow> Inr ((pos, w) # r)))"

text \<open>
  The inner loop: walk the sorted keyframes, overwrite \<open>current_def\<close> while the position
  is at most the week, and break at the first larger position.
\<close>

fun scan_resolved :: "int \<Rightarrow> (int \<times> keyframe) list \<Rightarrow> keyframe option \<Rightarrow> keyframe option" where
  "scan_resolved week_num [] current_def = current_def"
| "scan_resolved week_num ((pos, w) # rest) current_def =
     (if pos \<le> week_num then scan_resolved week_num rest (Some w) else current_def)"

definition make_week :: "int \<Rightarrow> keyframe \<Rightarrow> pyval \<Rightarrow> WeekDefinition" where
  "make_week week_num current_def default_duration =
     \<lparr> position = week_num,
       phase_name = dict_get current_def ''phaseName'' (week_label week_num),
       focus = dict_get current_def ''focus'' (PStr ''Volume''),
       power_multiplier = dict_get current_def ''powerMultiplier'' (PFloat 1.0),
       target_rpe = dict_get current_def ''targetRPE'' (PInt 6),
       duration_minutes = dict_get current_def ''durationMinutes'' default_duration,
       work_rest_ratio = dict_get current_def ''workRestRatio'' (PStr ''1:1'') \<rparr>"

definition default_week :: "int \<Rightarrow> pyval \<Rightarrow> WeekDefinition" where
  "default_week i default_duration =
     \<lparr> position = i, phase_name = week_label i, focus = PStr ''Volume'',
       power_multiplier = PFloat 1.0, target_rpe = PInt 6,
       duration_minutes = default_duration, work_rest_ratio = PStr ''1:1'' \<rparr>"

text \<open>
  \<open>list.sort(key=...)\<close> is stable, as \<open>sort_key\<close> is; \<open>range(1, total_weeks + 1)\<close> is
  \<open>[1..total_weeks]\<close>.
\<close>

definition interpolate_weeks :: "keyframe list \<Rightarrow> int \<Rightarrow> pyval \<Rightarrow> error + WeekDefinition list" where
  "interpolate_weeks weeks total_weeks default_duration =
     (case resolve_all weeks total_weeks of
        Inl e \<Rightarrow> Inl e
      | Inr unsorted \<Rightarrow>
          (case sort_key fst unsorted of
             [] \<Rightarrow> Inr (map (\<lambda>i. default_week i default_duration) [1..total_weeks])
           | first_resolved # more_resolved \<Rightarrow>
               Inr (map (\<lambda>week_num.
                          (let current_def =
                                 (case scan_resolved week_num (first_resolved # more_resolved) None of
                                    None \<Rightarrow> snd first_resolved
                                  | Some w \<Rightarrow> w)
                           in make_week week_num current_def default_duration))
                        [1..total_weeks])))"

section \<open>Constants\<close>

definition ATL_DAYS :: real where "ATL_DAYS = 7"
definition CTL_DAYS :: real where "CTL_DAYS = 42"
definition ATL_ALPHA :: real where "ATL_ALPHA = 2.0 / (ATL_DAYS + 1)"
definition CTL_ALPHA :: real where "CTL_ALPHA = 2.0 / (CTL_DAYS + 1)"
definition FATIGUE_MIDPOINT :: real where "FATIGUE_MIDPOINT = 1.15"
definition FATIGUE_STEEPNESS :: real where "FATIGUE_STEEPNESS = 4.5"
definition READINESS_OPTIMAL_TSB :: real where "READINESS_OPTIMAL_TSB = 20.0"
definition READINESS_WIDTH :: real where "READINESS_WIDTH = 1250.0"

section \<open>Vectorized calculations\<close>

text \<open>
  The NumPy functions work elementwise; each is modelled on one element and mapped over
  the arrays where the program passes arrays. \<open>np.clip(x, lo, hi)\<close> is
  \<open>minimum(maximum(x, lo), hi)\<close>; \<open>np.round\<close> rounds ties to even and keeps the float
  type; \<open>np.power\<close> with a fractional exponent is \<open>powr\<close> (for a negative base NumPy
  yields NaN, which the idealisation does not represent).
\<close>

definition np_clip :: "real \<Rightarrow> real \<Rightarrow> real \<Rightarrow> real" where
  "np_clip x lo hi = min (max x lo) hi"

definition np_round :: "real \<Rightarrow> real" where
  "np_round x = of_int (py_round x)"


text \<open>The loop of \<open>vectorized_ewma\<close>, carrying \<open>current\<close> from index to index.\<close>

fun ewma_loop :: "real \<Rightarrow> real \<Rightarrow> real \<Rightarrow> real list \<Rightarrow> real list" where
  "ewma_loop alpha decay current [] = []"
| "ewma_loop alpha decay current (load # loads) =
     (let current' = current * decay + load * alpha
      in current' # ewma_loop alpha decay current' loads)"

definition vectorized_ewma :: "real list \<Rightarrow> real \<Rightarrow> real \<Rightarrow> real list" where
  "vectorized_ewma daily_loads alpha initial =
     (let decay = 1.0 - alpha in ewma_loop alpha decay initial daily_loads)"

definition vectorized_fatigue_score :: "real \<Rightarrow> real \<Rightarrow> real" where
  "vectorized_fatigue_score atl ctl =
     (let ctl_safe = max ctl 0.001;
          acwr = atl / ctl_safe;
          score = 100.0 / (1.0 + exp (- FATIGUE_STEEPNESS * (acwr - FATIGUE_MIDPOINT)))
      in np_clip (np_round score) 0 100)"

definition vectorized_readiness_score :: "real \<Rightarrow> real" where
  "vectorized_readiness_score tsb =
     (let exponent = - ((tsb - READINESS_OPTIMAL_TSB) ^ 2) / READINESS_WIDTH;
          score = 100.0 * exp exponent
      in np_clip (np_round score) 0 100)"

section \<open>Simulation core\<close>

text \<open>
  \<open>run_single_simulation_fast\<close> draws from a random generator. The draws are an input
  of the model: for each week index the sessions of that week, each with its weekday
  (0 to 6) and the two uniform variates of its power and exertion noise. An index
  outside an array raises IndexError. With a base power of 0 the power ratio is NaN, and
  \<open>max(0.25, min(4.0, nan))\<close> is 4.0.
\<close>

text \<open>The load of one session, as the simulation computes it inline.\<close>

definition inline_session_load :: "real \<Rightarrow> real \<Rightarrow> real \<Rightarrow> real" where
  "inline_session_load actual_rpe duration power_ratio =
     actual_rpe powr 1.5 * duration powr 0.75 * (max 0.25 (min 4.0 power_ratio)) powr 0.5 * 0.3"

definition add_session ::
  "real \<Rightarrow> real list \<Rightarrow> real list \<Rightarrow> real list \<Rightarrow> nat \<Rightarrow> nat \<times> real \<times> real
   \<Rightarrow> real list \<Rightarrow> error + real list" where
  "add_session base_power power_mult_per_day target_rpe_per_day duration_per_day week_start
     draw daily_loads =
     (case draw of (day, power_noise, rpe_noise) \<Rightarrow>
        (let day_idx = week_start + day
         in if day_idx < length power_mult_per_day \<and> day_idx < length target_rpe_per_day
               \<and> day_idx < length duration_per_day \<and> day_idx < length daily_loads
            then
              (let planned_power = base_power * power_mult_per_day ! day_idx;
                   actual_power = planned_power * (1.0 + power_noise);
                   planned_rpe = target_rpe_per_day ! day_idx;
                   actual_rpe = np_clip (planned_rpe + rpe_noise) 1 10;
                   power_ratio = actual_power / base_power;
                   duration = duration_per_day ! day_idx;
                   load = (if base_power = 0
                           then actual_rpe powr 1.5 * duration powr 0.75 * 4.0 powr 0.5 * 0.3
                           else inline_session_load actual_rpe duration power_ratio)
               in Inr (daily_loads[day_idx := daily_loads ! day_idx + load]))
            else Inl IndexError))"

fun week_sessions ::
  "real \<Rightarrow> real list \<Rightarrow> real list \<Rightarrow> real list \<Rightarrow> nat \<Rightarrow> (nat \<times> real \<times> real) list
   \<Rightarrow> real list \<Rightarrow> error + real list" where
  "week_sessions base_power pm rpe dur week_start [] daily_loads = Inr daily_loads"
| "week_sessions base_power pm rpe dur week_start (draw # draws) daily_loads =
     (case add_session base_power pm rpe dur week_start draw daily_loads of
        Inl e \<Rightarrow> Inl e
      | Inr daily_loads' \<Rightarrow> week_sessions base_power pm rpe dur week_start draws daily_loads')"

fun weeks_loop ::
  "real \<Rightarrow> real list \<Rightarrow> real list \<Rightarrow> real list \<Rightarrow> (nat \<Rightarrow> (nat \<times> real \<times> real) list)
   \<Rightarrow> nat list \<Rightarrow> real list \<Rightarrow> error + real list" where
  "weeks_loop base_power pm rpe dur draws [] daily_loads = Inr daily_loads"
| "weeks_loop base_power pm rpe dur draws (week_idx # rest) daily_loads =
     (let week_start = week_idx * 7
      in case week_sessions base_power pm rpe dur week_start (draws week_idx) daily_loads of
           Inl e \<Rightarrow> Inl e
         | Inr daily_loads' \<Rightarrow> weeks_loop base_power pm rpe dur draws rest daily_loads')"

text \<open>The two smoothed series of the simulation: acute and chronic training load.\<close>

definition simulation_atl :: "real list \<Rightarrow> real list" where
  "simulation_atl daily_loads = vectorized_ewma daily_loads ATL_ALPHA 0.0"

definition simulation_ctl :: "real list \<Rightarrow> real list" where
  "simulation_ctl daily_loads = vectorized_ewma daily_loads CTL_ALPHA 10.0"

definition run_single_simulation_fast ::
  "nat \<Rightarrow> nat \<Rightarrow> real \<Rightarrow> real list \<Rightarrow> real list \<Rightarrow> real list
   \<Rightarrow> (nat \<Rightarrow> (nat \<times> real \<times> real) list) \<Rightarrow> error + real list \<times> real list" where
  "run_single_simulation_fast num_weeks num_days base_power power_mult_per_day
     target_rpe_per_day duration_per_day draws =
     (case weeks_loop base_power power_mult_per_day target_rpe_per_day duration_per_day draws
             [0..<num_weeks] (replicate num_days 0) of
        Inl e \<Rightarrow> Inl e
      | Inr daily_loads \<Rightarrow>
          (let atl = simulation_atl daily_loads;
               ctl = simulation_ctl daily_loads;
               fatigue_scores = map2 vectorized_fatigue_score atl ctl;
               tsb = map2 (-) ctl atl;
               readiness_scores = map vectorized_readiness_score tsb
           in Inr (fatigue_scores, readiness_scores)))"

section \<open>Partitioning the simulations into batches\<close>

text \<open>
  The parallel branch of \<open>run_monte_carlo_optimized\<close>. Each batch is modelled by its size
  and its seed; the other components of the tuple are the same for every batch. Every
  iteration that emits a batch makes a new \<open>SeedSequence()\<close> from fresh operating-system
  entropy and takes its first 32-bit state word: \<open>entropy i\<close> is the word that the
  sequence made in iteration \<open>i\<close> yields (a number below \<open>2^32\<close>), an input of the
  model. The seed is the sum of the word and the index; the model keeps the sum as it
  is, where a NumPy that keeps the word's type reduces it modulo \<open>2^32\<close>.
\<close>

definition use_multiprocessing :: "int \<Rightarrow> int \<Rightarrow> bool" where
  "use_multiprocessing num_simulations num_workers =
     (500 \<le> num_simulations \<and> 1 < num_workers)"

fun batches_loop :: "int \<Rightarrow> int \<Rightarrow> (int \<Rightarrow> int) \<Rightarrow> int list \<Rightarrow> (int \<times> int) list" where
  "batches_loop batch_size remainder entropy [] = []"
| "batches_loop batch_size remainder entropy (i # rest) =
     (let size = batch_size + (if i < remainder then 1 else 0)
      in (if 0 < size then [(size, entropy i + i)] else [])
         @ batches_loop batch_size remainder entropy rest)"

definition make_batches :: "int \<Rightarrow> int \<Rightarrow> (int \<Rightarrow> int) \<Rightarrow> (int \<times> int) list" where
  "make_batches num_simulations num_workers entropy =
     (let batch_size = num_simulations div num_workers;
          remainder = num_simulations mod num_workers
      in batches_loop batch_size remainder entropy [0..num_workers - 1])"

section \<open>The session load as the specification words it\<close>



section \<open>Properties of the batch partition\<close>

lemma batches_loop_sizes:
  "\<forall>i\<in>set is. 0 \<le> q + (if i < r then 1 else 0) \<Longrightarrow>
   sum_list (map fst (batches_loop q r e is))
     = sum_list (map (\<lambda>i. q + (if i < r then 1 else 0)) is)"
  by (induction "is") (auto simp: Let_def split: if_splits)

lemma batches_loop_set:
  "set (map fst (batches_loop q r e is)) \<subseteq> {q, q + 1}"
  by (induction "is") (auto simp: Let_def)

lemma sum_upto_sizes:
  fixes q r w :: int
  assumes "0 \<le> r" "r \<le> w"
  shows "sum_list (map (\<lambda>i. q + (if i < r then 1 else 0)) [0..w - 1]) = q * w + r"
proof -
  have "sum_list (map (\<lambda>i. q + (if i < r then 1 else 0)) [0..w - 1])
        = sum (\<lambda>i. q + (if i < r then 1 else 0)) {0..w - 1}"
    by (simp add: sum_list_distinct_conv_sum_set)
  also have "\<dots> = sum (\<lambda>i. q) {0..w - 1} + sum (\<lambda>i. if i < r then 1 else 0) {0..w - 1}"
    by (simp add: sum.distrib)
  also have "sum (\<lambda>i. if i < r then (1::int) else 0) {0..w - 1}
             = int (card ({0..w - 1} \<inter> {i. i < r}))"
    by (simp add: sum.If_cases)
  also have "{0..w - 1} \<inter> {i. i < r} = {0..r - 1}"
    using assms by auto
  finally show ?thesis using assms by (simp add: algebra_simps)
qed

text \<open>
  C9: whenever the parallel path runs (at least 500 simulations, more than one worker),
  the batch sizes sum to the number of simulations and any two of them differ by at most
  one; 17 simulations over 5 workers are split into 4, 4, 3, 3, 3.
\<close>

theorem batch_sizes_partition:
  assumes "use_multiprocessing num_simulations num_workers"
  shows "sum_list (map fst (make_batches num_simulations num_workers entropy)) = num_simulations
       \<and> (\<forall>a \<in> set (map fst (make_batches num_simulations num_workers entropy)).
          \<forall>b \<in> set (map fst (make_batches num_simulations num_workers entropy)). \<bar>a - b\<bar> \<le> 1)
       \<and> map fst (make_batches 17 5 entropy) = [4, 4, 3, 3, 3]"
proof -
  from assms have n: "500 \<le> num_simulations" and w: "1 < num_workers"
    by (simp_all add: use_multiprocessing_def)
  let ?q = "num_simulations div num_workers"
  let ?r = "num_simulations mod num_workers"
  have q: "0 \<le> ?q" using n w by (simp add: pos_imp_zdiv_nonneg_iff)
  have r: "0 \<le> ?r" "?r \<le> num_workers" using w by (simp_all add: less_imp_le)
  have "sum_list (map fst (make_batches num_simulations num_workers entropy))
        = sum_list (map (\<lambda>i. ?q + (if i < ?r then 1 else 0)) [0..num_workers - 1])"
    unfolding make_batches_def Let_def using q by (intro batches_loop_sizes) auto
  also have "\<dots> = ?q * num_workers + ?r"
    using r by (rule sum_upto_sizes)
  also have "\<dots> = num_simulations" by simp
  finally have total:
    "sum_list (map fst (make_batches num_simulations num_workers entropy)) = num_simulations" .
  have sub: "set (map fst (make_batches num_simulations num_workers entropy)) \<subseteq> {?q, ?q + 1}"
    unfolding make_batches_def Let_def by (rule batches_loop_set)
  have near: "\<forall>a \<in> set (map fst (make_batches num_simulations num_workers entropy)).
          \<forall>b \<in> set (map fst (make_batches num_simulations num_workers entropy)). \<bar>a - b\<bar> \<le> 1"
  proof (intro ballI)
    fix a b
    assume "a \<in> set (map fst (make_batches num_simulations num_workers entropy))"
       and "b \<in> set (map fst (make_batches num_simulations num_workers entropy))"
    with sub have "a \<in> {?q, ?q + 1}" "b \<in> {?q, ?q + 1}" by blast+
    then show "\<bar>a - b\<bar> \<le> 1" by auto
  qed
  have ex: "map fst (make_batches 17 5 entropy) = [4, 4, 3, 3, 3]"
    by (simp add: make_batches_def Let_def upto.simps)
  from total near ex show ?thesis by blast
qed

theorem batch_sizes_partition_witness:
  "use_multiprocessing 501 2
   \<and> map fst (make_batches 501 2 (\<lambda>i. 7)) = [251, 250]
   \<and> sum_list (map fst (make_batches 501 2 (\<lambda>i. 7))) = 501"
  using batch_sizes_partition [of 501 2 "\<lambda>i. 7"]
  by (simp add: use_multiprocessing_def make_batches_def Let_def upto.simps)

text \<open>
  C2: the claim is that the seeds of the batches come from one global seed sequence plus
  a per-batch offset and are therefore pairwise distinct. The program makes a new seed
  sequence in every iteration, so the offset is added to unrelated words: with 500
  simulations, 2 workers, and the words 5 and 4 for the two iterations, both batches get
  the seed 5.
\<close>

theorem batch_seeds_collide:
  "use_multiprocessing 500 2
   \<and> make_batches 500 2 (\<lambda>i. if i = 0 then 5 else 4) = [(250, 5), (250, 5)]"
  by (simp add: use_multiprocessing_def make_batches_def Let_def upto.simps)

section \<open>Properties of the EWMA\<close>

lemma ewma_loop_length: "length (ewma_loop a d c xs) = length xs"
  by (induction xs arbitrary: c) (auto simp: Let_def)

lemma ewma_loop_nth:
  "i < length xs \<Longrightarrow>
   ewma_loop a d c xs ! i = (if i = 0 then c else ewma_loop a d c xs ! (i - 1)) * d + xs ! i * a"
proof (induction xs arbitrary: c i)
  case Nil
  then show ?case by simp
next
  case (Cons x xs)
  show ?case
  proof (cases i)
    case 0
    then show ?thesis by (simp add: Let_def)
  next
    case (Suc j)
    then have "j < length xs" using Cons.prems by simp
    from Cons.IH [OF this, of "c * d + x * a"] Suc show ?thesis
      by (cases j) (simp_all add: Let_def)
  qed
qed

text \<open>
  C5: the smoothed series has one state per load; state 0 is
  \<open>seed * (1 - alpha) + load 0 * alpha\<close> and state \<open>i\<close> is
  \<open>state (i - 1) * (1 - alpha) + load i * alpha\<close>. The acute series uses
  \<open>alpha = 2 / (7 + 1) = 0.25\<close> and seed 0, the chronic series \<open>alpha = 2 / (42 + 1)\<close>
  and seed 10.
\<close>

theorem ewma_recurrence:
  "length (vectorized_ewma loads alpha seed) = length loads
   \<and> (\<forall>i < length loads.
        vectorized_ewma loads alpha seed ! i
          = (if i = 0 then seed else vectorized_ewma loads alpha seed ! (i - 1)) * (1 - alpha)
            + loads ! i * alpha)
   \<and> simulation_atl loads = vectorized_ewma loads (2 / (7 + 1)) 0
   \<and> (2 / (7 + 1) :: real) = 0.25
   \<and> simulation_ctl loads = vectorized_ewma loads (2 / (42 + 1)) 10"
  by (simp add: vectorized_ewma_def Let_def ewma_loop_length ewma_loop_nth
        simulation_atl_def simulation_ctl_def ATL_ALPHA_def CTL_ALPHA_def
        ATL_DAYS_def CTL_DAYS_def)

theorem ewma_recurrence_witness:
  "simulation_atl [8, 4] = [2, 2.5]
   \<and> simulation_atl [8, 4] ! 1 = simulation_atl [8, 4] ! 0 * (1 - 0.25) + 4 * 0.25
   \<and> simulation_ctl [43] = [10 * (1 - 2 / 43) + 43 * (2 / 43)]"
  using ewma_recurrence [of "[8, 4]" "0.25" 0]
  by (simp add: vectorized_ewma_def Let_def simulation_atl_def simulation_ctl_def
        ATL_ALPHA_def CTL_ALPHA_def ATL_DAYS_def CTL_DAYS_def)

lemmas float_defs = py_float_def strip_def is_space_def word_inf_def word_infinity_def
  word_nan_def parse_number_def digit_of_def digit_table_def parse_exponent_def
  nat_of_digits_def pow10_def

section \<open>Properties of the session load\<close>




section \<open>Properties of the scores\<close>

lemma clipped_round_range:
  "np_clip (np_round x) 0 100 \<in> \<int> \<and> 0 \<le> np_clip (np_round x) 0 100
   \<and> np_clip (np_round x) 0 100 \<le> 100"
  by (auto simp: np_clip_def np_round_def min_def max_def)

text \<open>
  C7: for all acute and chronic loads and every balance, the fatigue score and the
  readiness score are integers between 0 and 100.
\<close>

theorem scores_in_range:
  "vectorized_fatigue_score atl ctl \<in> \<int>
   \<and> 0 \<le> vectorized_fatigue_score atl ctl \<and> vectorized_fatigue_score atl ctl \<le> 100
   \<and> vectorized_readiness_score tsb \<in> \<int>
   \<and> 0 \<le> vectorized_readiness_score tsb \<and> vectorized_readiness_score tsb \<le> 100"
  unfolding vectorized_fatigue_score_def vectorized_readiness_score_def Let_def
  using clipped_round_range by blast

lemma np_round_int: "np_round (of_int n) = of_int n"
  by (simp add: np_round_def py_round_def)

text \<open>
  C8: when the acute load divided by the floored chronic load is exactly 1.15 the fatigue
  score is 50; at a balance of exactly 20 the readiness score is 100.
\<close>

theorem score_fixed_points:
  "(atl / max ctl 0.001 = 1.15 \<longrightarrow> vectorized_fatigue_score atl ctl = 50)
   \<and> vectorized_readiness_score 20 = 100"
proof (intro conjI impI)
  assume acwr: "atl / max ctl 0.001 = 1.15"
  have "vectorized_fatigue_score atl ctl
        = np_clip (np_round (100.0 / (1.0 + exp (- FATIGUE_STEEPNESS
            * (atl / max ctl 0.001 - FATIGUE_MIDPOINT))))) 0 100"
    by (simp only: vectorized_fatigue_score_def Let_def)
  also have "atl / max ctl 0.001 - FATIGUE_MIDPOINT = 0"
    by (simp only: acwr FATIGUE_MIDPOINT_def)
  finally show "vectorized_fatigue_score atl ctl = 50"
    by (simp add: np_round_def py_round_def np_clip_def)
next
  show "vectorized_readiness_score 20 = 100"
    by (simp add: vectorized_readiness_score_def Let_def READINESS_OPTIMAL_TSB_def
          READINESS_WIDTH_def np_round_def py_round_def np_clip_def)
qed

theorem score_fixed_points_witness:
  "(23 / max 20 0.001 :: real) = 1.15 \<and> vectorized_fatigue_score 23 20 = 50
   \<and> vectorized_fatigue_score 0.00115 0 = 50"
  using score_fixed_points [of 23 20] score_fixed_points [of "0.00115" 0]
  by simp

lemmas double_defs = double_of_real_def bin_exponent_def exponent_up.simps
  exponent_down.simps pow2_def py_round_def float_of_int_def Let_def

section \<open>Properties of the doubles\<close>

lemma exponent_up_bounds:
  "1 \<le> a \<Longrightarrow> 0 \<le> exponent_up a \<and> 2 ^ nat (exponent_up a) \<le> a
     \<and> a < 2 * 2 ^ nat (exponent_up a)"
proof (induction a rule: exponent_up.induct)
  case (1 a)
  show ?case
  proof (cases "2 \<le> a")
    case True
    with "1.IH" have ih: "0 \<le> exponent_up (a / 2)"
        "2 ^ nat (exponent_up (a / 2)) \<le> a / 2"
        "a / 2 < 2 * 2 ^ nat (exponent_up (a / 2))"
      by simp_all
    have e: "exponent_up a = exponent_up (a / 2) + 1"
      using True by (subst exponent_up.simps) simp
    have n: "nat (exponent_up (a / 2) + 1) = Suc (nat (exponent_up (a / 2)))"
      using ih(1) by simp
    from ih show ?thesis unfolding e n by simp
  next
    case False
    then have "exponent_up a = 0" by (subst exponent_up.simps) simp
    with False "1.prems" show ?thesis by simp
  qed
qed

lemma exponent_down_bounds:
  "0 < a \<Longrightarrow> a < 1 \<Longrightarrow> exponent_down a < 0 \<and> 1 / 2 ^ nat (- exponent_down a) \<le> a
     \<and> a < 2 / 2 ^ nat (- exponent_down a)"
proof (induction a rule: exponent_down.induct)
  case (1 a)
  have e: "exponent_down a = exponent_down (a * 2) - 1"
    using "1.prems" by (subst exponent_down.simps) simp
  show ?case
  proof (cases "a * 2 < 1")
    case True
    with "1.IH" "1.prems" have ih: "exponent_down (a * 2) < 0"
        "1 / 2 ^ nat (- exponent_down (a * 2)) \<le> a * 2"
        "a * 2 < 2 / 2 ^ nat (- exponent_down (a * 2))"
      by simp_all
    have n: "nat (- (exponent_down (a * 2) - 1)) = Suc (nat (- exponent_down (a * 2)))"
      using ih(1) by simp
    from ih show ?thesis unfolding e n by (simp add: field_simps)
  next
    case False
    then have "exponent_down (a * 2) = 0" by (subst exponent_down.simps) simp
    with False "1.prems" show ?thesis unfolding e by simp
  qed
qed

lemma bin_exponent_bounds:
  assumes "0 < a"
  shows "pow2 (bin_exponent a) \<le> a \<and> a < pow2 (bin_exponent a + 1)"
proof (cases "1 \<le> a")
  case True
  from exponent_up_bounds [OF True] show ?thesis
    using True by (simp add: bin_exponent_def pow2_def nat_add_distrib)
next
  case False
  with assms have lt: "a < 1" by simp
  from exponent_down_bounds [OF assms lt]
  have b: "exponent_down a < 0" "1 / 2 ^ nat (- exponent_down a) \<le> a"
    "a < 2 / 2 ^ nat (- exponent_down a)" by simp_all
  show ?thesis
  proof (cases "exponent_down a = - 1")
    case True
    with b False show ?thesis by (simp add: bin_exponent_def pow2_def)
  next
    case False
    with b(1) have "exponent_down a + 1 < 0" by simp
    moreover have "nat (- exponent_down a) = Suc (nat (- (exponent_down a + 1)))"
      using b(1) by simp
    ultimately show ?thesis
      using b lt by (simp add: bin_exponent_def pow2_def)
  qed
qed

lemma double_of_real_zero: "double_of_real 0 = Fin 0"
  by (simp add: double_defs)

lemma double_examples:
  "double_of_real (70 / 100) = Fin (6305039478318694 / 2 ^ 53)"
  "double_of_real (6305039478318694 / 2 ^ 53 * 45) = Fin (8866461766385663 / 2 ^ 48)"
  "double_of_real 45 = Fin 45"
  "double_of_real (10 ^ 400) = PosInf"
  by (simp_all add: double_defs)

lemma py_float_examples:
  "py_float ''0'' = Inr (Fin 0)"
  "py_float ''70'' = Inr (Fin 70)"
  "py_float ''1e400'' = Inr PosInf"
  "py_float (CHR 0x1F # ''50'') = Inl ValueError"
  "py_float (CHR 0xA0 # ''50'') = Inr (Fin 50)"
  "py_float ''0.7'' = Inr (Fin (6305039478318694 / 2 ^ 53))"
  by (simp_all add: float_defs double_defs)


section \<open>Properties of the week positions\<close>

lemma endswith_percent_snoc: "endswith (s @ ''%'') ''%''"
  by (simp add: endswith_def)

lemma snoc_percent_not_marker: "s @ ''%'' \<noteq> ''first''" "s @ ''%'' \<noteq> ''last''"
proof -
  have l: "last (s @ ''%'') = CHR ''%''" by simp
  show "s @ ''%'' \<noteq> ''first''"
  proof
    assume "s @ ''%'' = ''first''"
    with l show False by simp
  qed
  show "s @ ''%'' \<noteq> ''last''"
  proof
    assume "s @ ''%'' = ''last''"
    with l show False by simp
  qed
qed

lemma resolve_percent_string:
  "resolve_week_position (PStr (s @ ''%'')) N
     = (case py_float s of Inl e \<Rightarrow> Inl e | Inr x \<Rightarrow> percent_week x N)"
  by (simp add: endswith_percent_snoc snoc_percent_not_marker)

lemma percent_week_finite:
  assumes "1 \<le> N" and "float_of_int N = Inr n"
    and "float_mul (float_div_100 (Fin p)) n = Fin q"
  shows "percent_week (Fin p) N = Inr (max 1 (min N (py_round q + 1)))"
proof (cases "float_div_100 (Fin p) = Fin 0")
  case True
  with assms(3) have "q = 0" by (simp add: double_of_real_zero)
  then have "max 1 (min N (py_round q + 1)) = 1"
    using assms(1) by (simp add: py_round_def)
  with True show ?thesis by (simp add: percent_week_def)
next
  case False
  with assms(2,3) show ?thesis by (simp add: percent_week_def Let_def)
qed

text \<open>
  C10, as amended: for a program of \<open>N \<ge> 1\<close> weeks, \<open>first\<close> resolves to 1, \<open>last\<close> to
  \<open>N\<close> and \<open>0%\<close> to 1; and for every percentage string whose number \<open>float\<close> reads as
  a finite \<open>p > 0\<close>, when \<open>N\<close> converts to a double and the double product
  \<open>(p / 100) * N\<close> is finite, the result is \<open>round\<close> of that product (quotient and
  product rounded to doubles, \<open>round\<close> with ties to even) plus 1, clamped into
  \<open>[1, N]\<close>.
\<close>

theorem resolve_week_position_cases:
  assumes "1 \<le> N"
  shows "resolve_week_position (PStr ''first'') N = Inr 1
       \<and> resolve_week_position (PStr ''last'') N = Inr N
       \<and> resolve_week_position (PStr ''0%'') N = Inr 1
       \<and> (\<forall>s p n q. py_float s = Inr (Fin p) \<and> 0 < p \<and> float_of_int N = Inr n
              \<and> float_mul (float_div_100 (Fin p)) n = Fin q \<longrightarrow>
            resolve_week_position (PStr (s @ ''%'')) N
              = Inr (max 1 (min N (py_round q + 1)))
            \<and> 1 \<le> max 1 (min N (py_round q + 1))
            \<and> max 1 (min N (py_round q + 1)) \<le> N)"
proof (intro conjI allI impI)
  show "resolve_week_position (PStr ''first'') N = Inr 1" by simp
  show "resolve_week_position (PStr ''last'') N = Inr N" by simp
  have "py_float ''0'' = Inr (Fin 0)" by (simp add: float_defs double_defs)
  then show "resolve_week_position (PStr ''0%'') N = Inr 1"
    by (simp add: endswith_def percent_week_def double_of_real_zero)
next
  fix s p n q
  assume h: "py_float s = Inr (Fin p) \<and> 0 < p \<and> float_of_int N = Inr n
              \<and> float_mul (float_div_100 (Fin p)) n = Fin q"
  then have a: "float_of_int N = Inr n"
    and b: "float_mul (float_div_100 (Fin p)) n = Fin q" by blast+
  have "percent_week (Fin p) N = Inr (max 1 (min N (py_round q + 1)))"
    using assms a b by (rule percent_week_finite)
  with h show "resolve_week_position (PStr (s @ ''%'')) N
              = Inr (max 1 (min N (py_round q + 1)))"
    by (simp only: resolve_percent_string) simp
next
  fix q :: real
  show "1 \<le> max 1 (min N (py_round q + 1))" by simp
  show "max 1 (min N (py_round q + 1)) \<le> N" using assms by simp
qed

theorem resolve_week_position_cases_witness:
  "(1::int) \<le> 45
   \<and> resolve_week_position (PStr ''last'') 45 = Inr 45
   \<and> py_float ''70'' = Inr (Fin 70)
   \<and> float_of_int 45 = Inr 45
   \<and> float_mul (float_div_100 (Fin 70)) 45 = Fin (8866461766385663 / 2 ^ 48)
   \<and> py_round (8866461766385663 / 2 ^ 48) = 31
   \<and> resolve_week_position (PStr ''70%'') 45 = Inr 32"
proof -
  have h: "(1::int) \<le> 45" by simp
  have f: "py_float ''70'' = Inr (Fin 70)" by (simp add: float_defs double_defs)
  have n: "float_of_int 45 = Inr 45" by (simp add: double_defs)
  have d: "float_div_100 (Fin 70) = Fin (6305039478318694 / 2 ^ 53)"
    by (simp add: double_defs)
  have m: "float_mul (float_div_100 (Fin 70)) 45 = Fin (8866461766385663 / 2 ^ 48)"
    unfolding d by (simp add: double_defs)
  have r: "py_round (8866461766385663 / 2 ^ 48) = 31" by (simp add: py_round_def)
  have pre: "py_float ''70'' = Inr (Fin 70) \<and> 0 < (70::real) \<and> float_of_int 45 = Inr 45
      \<and> float_mul (float_div_100 (Fin 70)) 45 = Fin (8866461766385663 / 2 ^ 48)"
    by (intro conjI f n m) simp
  have "resolve_week_position (PStr (''70'' @ ''%'')) 45
        = Inr (max 1 (min 45 (py_round (8866461766385663 / 2 ^ 48) + 1)))"
    using resolve_week_position_cases [OF h, THEN conjunct2, THEN conjunct2,
        THEN conjunct2, rule_format, OF pre]
    by (rule conjunct1)
  then have "resolve_week_position (PStr ''70%'') 45 = Inr 32"
    unfolding r by simp
  with f n m r show ?thesis by simp
qed

text \<open>
  C10: the claim gives the clamped formula for every percentage string with a positive
  number. The number of \<open>1e400%\<close> is positive but exceeds every double: \<open>float\<close> reads
  it as infinity and \<open>round\<close> raises OverflowError.
\<close>

theorem resolve_week_position_overflows:
  "resolve_week_position (PStr ''1e400%'') 5 = Inl OverflowError"
proof -
  have "py_float ''1e400'' = Inr PosInf" by (simp add: float_defs double_defs)
  moreover have "percent_week PosInf 5 = Inl OverflowError"
    by (simp add: percent_week_def double_defs)
  ultimately show ?thesis by (simp add: endswith_def)
qed

text \<open>
  C1: the claim is that every position that is not an integer, not \<open>first\<close> or
  \<open>last\<close> and not a well-formed percentage resolves to 1 without raising. A string
  such as \<open>abc%\<close> ends in a percent sign, so its prefix is handed to \<open>float\<close>, which
  raises.
\<close>

theorem resolve_week_position_raises:
  "resolve_week_position (PStr ''abc%'') 5 = Inl ValueError"
  by (simp add: endswith_def float_defs)

text \<open>
  C1, as amended: every position that is not an int (a bool included), not \<open>first\<close> or
  \<open>last\<close>, and not a string ending in a percent sign resolves to 1 and does not raise.
\<close>

theorem resolve_week_position_default:
  assumes "\<forall>n. pos \<noteq> PInt n" and "\<forall>b. pos \<noteq> PBool b"
    and "\<forall>s. pos = PStr s \<longrightarrow> s \<noteq> ''first'' \<and> s \<noteq> ''last'' \<and> \<not> endswith s ''%''"
  shows "resolve_week_position pos total_weeks = Inr 1"
  using assms by (cases pos) auto

theorem resolve_week_position_default_witness:
  "resolve_week_position (PStr ''abc'') 5 = Inr 1
   \<and> resolve_week_position PNone 5 = Inr 1
   \<and> resolve_week_position (PFloat 2.5) 5 = Inr 1"
  using resolve_week_position_default [of "PStr ''abc''" 5]
    resolve_week_position_default [of PNone 5]
    resolve_week_position_default [of "PFloat 2.5" 5]
  by (simp add: endswith_def)

section \<open>Properties of the interpolation\<close>

lemma resolve_all_ok:
  "\<forall>kf \<in> set weeks. \<exists>p. keyframe_index tw kf = Inr p \<Longrightarrow>
   resolve_all weeks tw = Inr (map (\<lambda>kf. (projr (keyframe_index tw kf), kf)) weeks)"
  by (induction weeks) auto

lemma scan_resolved_sorted:
  "sorted (map fst xs) \<Longrightarrow>
   scan_resolved w xs cur =
     (case filter (\<lambda>x. fst x \<le> w) xs of [] \<Rightarrow> cur | y # ys \<Rightarrow> Some (snd (last (y # ys))))"
proof (induction xs arbitrary: cur)
  case Nil
  then show ?case by simp
next
  case (Cons x xs)
  obtain p kf where x: "x = (p, kf)" by (cases x)
  show ?case
  proof (cases "p \<le> w")
    case True
    with Cons x show ?thesis by (auto split: list.splits)
  next
    case False
    with Cons.prems x have "\<forall>y \<in> set xs. \<not> fst y \<le> w" by fastforce
    then have "filter (\<lambda>x. fst x \<le> w) xs = []" by (simp add: filter_empty_conv)
    with False x show ?thesis by simp
  qed
qed

lemma last_filter_le_eq:
  "sorted (map fst xs) \<Longrightarrow> filter (\<lambda>x. fst x = k) xs \<noteq> [] \<Longrightarrow>
   last (filter (\<lambda>x. fst x \<le> k) xs) = last (filter (\<lambda>x. fst x = k) xs)"
  for k :: int
proof (induction xs)
  case Nil
  then show ?case by simp
next
  case (Cons x xs)
  from Cons.prems(1) have s: "sorted (map fst xs)" and ge: "\<forall>y \<in> set xs. fst x \<le> fst y"
    by simp_all
  consider "fst x = k" | "fst x < k" | "k < fst x" by linarith
  then show ?case
  proof cases
    case 1
    with ge have "filter (\<lambda>x. fst x \<le> k) xs = filter (\<lambda>x. fst x = k) xs"
      by (intro filter_cong) auto
    with 1 show ?thesis by simp
  next
    case 2
    with Cons.prems(2) have ne: "filter (\<lambda>x. fst x = k) xs \<noteq> []" by simp
    then have "filter (\<lambda>x. fst x \<le> k) xs \<noteq> []"
      by (auto simp: filter_empty_conv)
    with 2 ne Cons.IH [OF s ne] show ?thesis by simp
  next
    case 3
    with ge have "filter (\<lambda>x. fst x = k) xs = []" by (auto simp: filter_empty_conv)
    with 3 Cons.prems(2) show ?thesis by simp
  qed
qed


lemma position_make_week: "position (make_week w kf dd) = w"
  by (simp add: make_week_def)

lemma interpolate_weeks_ok:
  assumes "\<forall>kf \<in> set weeks. \<exists>p. keyframe_index tw kf = Inr p"
  shows "\<exists>pick. interpolate_weeks weeks tw dd
           = Inr (map (\<lambda>w. if weeks = [] then default_week w dd
                            else make_week w (pick w) dd) [1..tw])"
proof -
  let ?unsorted = "map (\<lambda>kf. (projr (keyframe_index tw kf), kf)) weeks"
  have r: "resolve_all weeks tw = Inr ?unsorted"
    using assms by (rule resolve_all_ok)
  show ?thesis
  proof (cases "sort_key fst ?unsorted")
    case Nil
    then have "length (sort_key fst ?unsorted) = 0" by simp
    then have "weeks = []" by simp
    with r show ?thesis by (simp add: interpolate_weeks_def)
  next
    case (Cons x xs)
    then have "length (sort_key fst ?unsorted) \<noteq> 0" by simp
    then have "weeks \<noteq> []" by simp
    with r Cons show ?thesis
      by (intro exI [of _ "\<lambda>w. case scan_resolved w (x # xs) None of None \<Rightarrow> snd x | Some k \<Rightarrow> k"])
         (simp add: interpolate_weeks_def Let_def)
  qed
qed

text \<open>
  C4, as amended: for a program of at least one week, every keyframe list whose positions
  all resolve without raising (the empty list included) and every default duration,
  \<open>interpolate_weeks\<close> returns exactly as many week definitions as there are weeks,
  with the positions 1, 2, ... in order; for the empty keyframe list every entry carries
  the defaults (phase name \<open>Week w\<close>, focus \<open>Volume\<close>, multiplier 1.0, target exertion
  6, the default duration, ratio \<open>1:1\<close>).
\<close>

theorem interpolate_weeks_shape:
  assumes "1 \<le> total_weeks"
    and "\<forall>kf \<in> set weeks. \<exists>p. keyframe_index total_weeks kf = Inr p"
  shows "\<exists>defs. interpolate_weeks weeks total_weeks default_duration = Inr defs
           \<and> length defs = nat total_weeks
           \<and> map position defs = [1..total_weeks]
           \<and> (weeks = [] \<longrightarrow>
                defs = map (\<lambda>w. \<lparr> position = w, phase_name = PStr (''Week '' @ str_int w),
                                   focus = PStr ''Volume'', power_multiplier = PFloat 1.0,
                                   target_rpe = PInt 6, duration_minutes = default_duration,
                                   work_rest_ratio = PStr ''1:1'' \<rparr>) [1..total_weeks])"
proof -
  from interpolate_weeks_ok [OF assms(2), of default_duration]
  obtain pick where eq: "interpolate_weeks weeks total_weeks default_duration
           = Inr (map (\<lambda>w. if weeks = [] then default_week w default_duration
                            else make_week w (pick w) default_duration) [1..total_weeks])"
    by blast
  let ?defs = "map (\<lambda>w. if weeks = [] then default_week w default_duration
                            else make_week w (pick w) default_duration) [1..total_weeks]"
  have len: "length ?defs = nat total_weeks" by simp
  have pos: "map position ?defs = [1..total_weeks]"
    by (simp add: comp_def position_make_week default_week_def map_idI)
  have dflt: "weeks = [] \<longrightarrow>
                ?defs = map (\<lambda>w. \<lparr> position = w, phase_name = PStr (''Week '' @ str_int w),
                                   focus = PStr ''Volume'', power_multiplier = PFloat 1.0,
                                   target_rpe = PInt 6, duration_minutes = default_duration,
                                   work_rest_ratio = PStr ''1:1'' \<rparr>) [1..total_weeks]"
    by (simp add: default_week_def week_label_def)
  from eq len pos dflt show ?thesis by blast
qed

text \<open>
  C4: the claim is made for every keyframe list. A keyframe whose position is a string
  ending in a percent sign with a prefix that is no number makes the interpolation raise,
  so no list is returned.
\<close>

theorem interpolate_weeks_raises:
  "interpolate_weeks [[''position'' \<mapsto> PStr ''x%'']] 1 (PInt 15) = Inl ValueError"
  by (simp add: interpolate_weeks_def keyframe_index_def dict_get_def endswith_def float_defs)

theorem interpolate_weeks_shape_witness:
  "interpolate_weeks [] 2 (PInt 15)
     = Inr [\<lparr> position = 1, phase_name = PStr ''Week 1'', focus = PStr ''Volume'',
               power_multiplier = PFloat 1, target_rpe = PInt 6, duration_minutes = PInt 15,
               work_rest_ratio = PStr ''1:1'' \<rparr>,
            \<lparr> position = 2, phase_name = PStr ''Week 2'', focus = PStr ''Volume'',
               power_multiplier = PFloat 1, target_rpe = PInt 6, duration_minutes = PInt 15,
               work_rest_ratio = PStr ''1:1'' \<rparr>]
   \<and> map position (projr (interpolate_weeks
         [[''position'' \<mapsto> PStr ''last'', ''focus'' \<mapsto> PStr ''Peak'']] 3 (PInt 15))) = [1, 2, 3]"
proof -
  have h: "(1::int) \<le> 2" "(1::int) \<le> 3" by simp_all
  show ?thesis
    using interpolate_weeks_shape [OF h(1), of "[]" "PInt 15"]
      interpolate_weeks_shape [OF h(2), of "[[''position'' \<mapsto> PStr ''last'', ''focus'' \<mapsto> PStr ''Peak'']]" "PInt 15"]
    by (simp add: interpolate_weeks_def keyframe_index_def dict_get_def default_week_def
          make_week_def week_label_def str_int_def str_nat.simps digit_char_def upto.simps)
qed


lemma upto_nth_week: "1 \<le> w \<Longrightarrow> w \<le> tw \<Longrightarrow> [1..tw] ! nat (w - 1) = w"
  by (simp add: nth_upto)

text \<open>
  C3: the claim is made for every keyframe list in which keyframes tie at an index. Two
  keyframes tied at week 2 followed by a keyframe whose position is \<open>x%\<close> make the
  interpolation raise, so no week definition is emitted.
\<close>

theorem interpolate_weeks_tie_raises:
  "interpolate_weeks
     [[''position'' \<mapsto> PInt 2, ''focus'' \<mapsto> PStr ''Build''],
      [''position'' \<mapsto> PInt 2, ''focus'' \<mapsto> PStr ''Peak''],
      [''position'' \<mapsto> PStr ''x%'']] 4 (PInt 15) = Inl ValueError"
  by (simp add: interpolate_weeks_def keyframe_index_def dict_get_def endswith_def float_defs)

text \<open>
  C3, as amended: let the positions of all keyframes resolve, let some keyframes (in particular two
  or more) resolve to the week index \<open>k\<close>, and let \<open>w\<close> be a week of the program with
  \<open>k \<le> w\<close> such that no keyframe resolves to an index above \<open>k\<close> and at most \<open>w\<close>.
  Then the definition emitted for week \<open>w\<close> is built from the keyframe that comes last in
  the original list among those resolving to \<open>k\<close>.
\<close>

theorem interpolate_weeks_tie_break:
  assumes ok: "\<forall>kf \<in> set weeks. \<exists>p. keyframe_index total_weeks kf = Inr p"
    and tie: "filter (\<lambda>kf. keyframe_index total_weeks kf = Inr k) weeks \<noteq> []"
    and kw: "k \<le> w" and w1: "1 \<le> w" and wn: "w \<le> total_weeks"
    and gap: "\<forall>kf \<in> set weeks. \<forall>p. keyframe_index total_weeks kf = Inr p \<longrightarrow> p \<le> k \<or> w < p"
  shows "\<exists>defs. interpolate_weeks weeks total_weeks default_duration = Inr defs
           \<and> defs ! nat (w - 1)
               = make_week w (last (filter (\<lambda>kf. keyframe_index total_weeks kf = Inr k) weeks))
                   default_duration"
proof -
  let ?f = "\<lambda>kf. projr (keyframe_index total_weeks kf)"
  let ?g = "\<lambda>kf. (?f kf, kf)"
  let ?unsorted = "map ?g weeks"
  let ?sorted = "sort_key fst ?unsorted"
  let ?ties = "filter (\<lambda>kf. keyframe_index total_weeks kf = Inr k) weeks"
  have r: "resolve_all weeks total_weeks = Inr ?unsorted"
    using ok by (rule resolve_all_ok)
  have idx: "\<And>kf. kf \<in> set weeks \<Longrightarrow> (keyframe_index total_weeks kf = Inr k) = (?f kf = k)"
    using ok by fastforce
  have ties_f: "?ties = filter (\<lambda>kf. ?f kf = k) weeks"
    by (rule filter_cong) (simp_all add: idx)
  have srt: "sorted (map fst ?sorted)" by simp
  have stable: "filter (\<lambda>x. fst x = k) ?sorted = map ?g ?ties"
    by (simp add: sort_key_stable filter_map comp_def ties_f)
  with tie have ne: "filter (\<lambda>x. fst x = k) ?sorted \<noteq> []" by simp
  have "\<forall>x \<in> set ?sorted. (fst x \<le> w) = (fst x \<le> k)"
  proof
    fix x assume "x \<in> set ?sorted"
    then obtain kf where kf: "kf \<in> set weeks" and x: "x = ?g kf" by auto
    from ok kf obtain p where p: "keyframe_index total_weeks kf = Inr p" by blast
    with gap kf have "p \<le> k \<or> w < p" by blast
    with kw p x show "(fst x \<le> w) = (fst x \<le> k)" by auto
  qed
  then have "filter (\<lambda>x. fst x \<le> w) ?sorted = filter (\<lambda>x. fst x \<le> k) ?sorted"
    by (intro filter_cong) auto
  then have lastw: "last (filter (\<lambda>x. fst x \<le> w) ?sorted) = ?g (last ?ties)"
    using last_filter_le_eq [OF srt ne] stable tie by (simp add: last_map)
  have new: "filter (\<lambda>x. fst x \<le> w) ?sorted \<noteq> []"
  proof -
    from ne have "\<exists>x \<in> set ?sorted. fst x = k"
      unfolding filter_empty_conv by blast
    then have "\<exists>x \<in> set ?sorted. fst x \<le> w" using kw by blast
    then show ?thesis unfolding filter_empty_conv by blast
  qed
  have scan: "scan_resolved w ?sorted None = Some (last ?ties)"
    using scan_resolved_sorted [OF srt, of w None] new lastw
    by (auto split: list.splits)
  from new obtain x xs where cons: "?sorted = x # xs" by (cases ?sorted) auto
  let ?defs = "map (\<lambda>week_num.
                 make_week week_num
                   (case scan_resolved week_num (x # xs) None of None \<Rightarrow> snd x | Some kf \<Rightarrow> kf)
                   default_duration) [1..total_weeks]"
  have eq: "interpolate_weeks weeks total_weeks default_duration = Inr ?defs"
    using r cons by (simp add: interpolate_weeks_def Let_def)
  have "nat (w - 1) < length [1..total_weeks]" using w1 wn by simp
  then have "?defs ! nat (w - 1)
      = make_week w (case scan_resolved w (x # xs) None of None \<Rightarrow> snd x | Some kf \<Rightarrow> kf)
          default_duration"
    using w1 wn by (simp add: upto_nth_week del: scan_resolved.simps)
  also have "\<dots> = make_week w (last ?ties) default_duration"
    using scan cons by simp
  finally show ?thesis using eq by blast
qed


lemma keyframe_index_70_percent:
  "keyframe_index 45 [''position'' \<mapsto> PStr ''70%'', ''focus'' \<mapsto> PStr ''Peak''] = Inr 32"
proof -
  have "py_float ''70'' = Inr (Fin 70)" by (simp add: float_defs double_defs)
  moreover have "float_div_100 (Fin 70) = Fin (6305039478318694 / 2 ^ 53)"
    by (simp add: double_defs)
  moreover have "float_mul (Fin (6305039478318694 / 2 ^ 53)) 45
      = Fin (8866461766385663 / 2 ^ 48)"
    by (simp add: double_defs)
  moreover have "float_of_int 45 = Inr 45" by (simp add: double_defs)
  moreover have "py_round (8866461766385663 / 2 ^ 48) = 31" by (simp add: py_round_def)
  ultimately show ?thesis
    by (simp add: keyframe_index_def dict_get_def endswith_def percent_week_def)
qed

theorem interpolate_weeks_tie_break_witness:
  "map focus (projr (interpolate_weeks
       [[''position'' \<mapsto> PInt 2, ''focus'' \<mapsto> PStr ''Build''],
        [''position'' \<mapsto> PStr ''first'', ''focus'' \<mapsto> PStr ''Base''],
        [''position'' \<mapsto> PInt 2, ''focus'' \<mapsto> PStr ''Peak''],
        [''position'' \<mapsto> PInt 4, ''focus'' \<mapsto> PStr ''Taper'']] 4 (PInt 15)))
   = [PStr ''Base'', PStr ''Peak'', PStr ''Peak'', PStr ''Taper'']
   \<and> focus (projr (interpolate_weeks
       [[''position'' \<mapsto> PInt 2, ''focus'' \<mapsto> PStr ''Build''],
        [''position'' \<mapsto> PStr ''first'', ''focus'' \<mapsto> PStr ''Base''],
        [''position'' \<mapsto> PInt 2, ''focus'' \<mapsto> PStr ''Peak''],
        [''position'' \<mapsto> PInt 4, ''focus'' \<mapsto> PStr ''Taper'']] 4 (PInt 15)) ! 2)
   = PStr ''Peak''
   \<and> focus (projr (interpolate_weeks
       [[''position'' \<mapsto> PInt 32, ''focus'' \<mapsto> PStr ''Build''],
        [''position'' \<mapsto> PStr ''70%'', ''focus'' \<mapsto> PStr ''Peak'']] 45 (PInt 15)) ! 39)
   = PStr ''Peak''"
proof -
  let ?ws = "[[''position'' \<mapsto> PInt 2, ''focus'' \<mapsto> PStr ''Build''],
        [''position'' \<mapsto> PStr ''first'', ''focus'' \<mapsto> PStr ''Base''],
        [''position'' \<mapsto> PInt 2, ''focus'' \<mapsto> PStr ''Peak''],
        [''position'' \<mapsto> PInt 4, ''focus'' \<mapsto> PStr ''Taper'']] :: keyframe list"
  have ok: "\<forall>kf \<in> set ?ws. \<exists>p. keyframe_index 4 kf = Inr p"
    by (simp add: keyframe_index_def dict_get_def)
  have ties: "filter (\<lambda>kf. keyframe_index 4 kf = Inr 2) ?ws
              = [[''position'' \<mapsto> PInt 2, ''focus'' \<mapsto> PStr ''Build''],
                 [''position'' \<mapsto> PInt 2, ''focus'' \<mapsto> PStr ''Peak'']]"
    by (simp add: keyframe_index_def dict_get_def)
  then have tie: "filter (\<lambda>kf. keyframe_index 4 kf = Inr 2) ?ws \<noteq> []" by simp
  have gap: "\<forall>kf \<in> set ?ws. \<forall>p. keyframe_index 4 kf = Inr p \<longrightarrow> p \<le> 2 \<or> 3 < p"
    by (simp add: keyframe_index_def dict_get_def)
  have "\<exists>defs. interpolate_weeks ?ws 4 (PInt 15) = Inr defs
           \<and> defs ! nat (3 - 1)
               = make_week 3 (last (filter (\<lambda>kf. keyframe_index 4 kf = Inr 2) ?ws)) (PInt 15)"
    by (rule interpolate_weeks_tie_break [OF ok tie _ _ _ gap]) simp_all
  then have "projr (interpolate_weeks ?ws 4 (PInt 15)) ! 2
      = make_week 3 (last (filter (\<lambda>kf. keyframe_index 4 kf = Inr 2) ?ws)) (PInt 15)"
    by auto
  then have third: "focus (projr (interpolate_weeks ?ws 4 (PInt 15)) ! 2) = PStr ''Peak''"
    by (simp only: ties) (simp add: make_week_def dict_get_def)
  have all: "map focus (projr (interpolate_weeks ?ws 4 (PInt 15)))
      = [PStr ''Base'', PStr ''Peak'', PStr ''Peak'', PStr ''Taper'']"
    by (simp add: interpolate_weeks_def keyframe_index_def dict_get_def make_week_def
          upto.simps)
  let ?a = "[''position'' \<mapsto> PInt 32, ''focus'' \<mapsto> PStr ''Build''] :: keyframe"
  let ?b = "[''position'' \<mapsto> PStr ''70%'', ''focus'' \<mapsto> PStr ''Peak''] :: keyframe"
  have ia: "keyframe_index 45 ?a = Inr 32" by (simp add: keyframe_index_def dict_get_def)
  note ib = keyframe_index_70_percent
  have ok70: "\<forall>kf \<in> set [?a, ?b]. \<exists>p. keyframe_index 45 kf = Inr p"
    using ia ib by simp
  have ties70: "filter (\<lambda>kf. keyframe_index 45 kf = Inr 32) [?a, ?b] = [?a, ?b]"
    using ia ib by simp
  then have tie70: "filter (\<lambda>kf. keyframe_index 45 kf = Inr 32) [?a, ?b] \<noteq> []" by simp
  have gap70: "\<forall>kf \<in> set [?a, ?b]. \<forall>p. keyframe_index 45 kf = Inr p \<longrightarrow> p \<le> 32 \<or> 40 < p"
    using ia ib by simp
  have "\<exists>defs. interpolate_weeks [?a, ?b] 45 (PInt 15) = Inr defs
           \<and> defs ! nat (40 - 1)
               = make_week 40 (last (filter (\<lambda>kf. keyframe_index 45 kf = Inr 32) [?a, ?b]))
                   (PInt 15)"
    by (rule interpolate_weeks_tie_break [OF ok70 tie70 _ _ _ gap70]) simp_all
  then have "projr (interpolate_weeks [?a, ?b] 45 (PInt 15)) ! 39
      = make_week 40 (last (filter (\<lambda>kf. keyframe_index 45 kf = Inr 32) [?a, ?b])) (PInt 15)"
    by auto
  then have c70: "focus (projr (interpolate_weeks [?a, ?b] 45 (PInt 15)) ! 39) = PStr ''Peak''"
    by (simp only: ties70) (simp add: make_week_def dict_get_def)
  from all third c70 show ?thesis by blast
qed

end
